theory Spec2Isabelle
  imports Main "HOL-Library.AList"
begin

section \<open>Errors\<close>

text \<open>
  The program signals every failure by raising an exception.  The exceptions that the
  modelled code can raise are \<^verbatim>\<open>ValueError\<close> and \<^verbatim>\<open>OverflowError\<close>; the payload records
  which message is carried (the Ukrainian texts of \<^verbatim>\<open>main.py\<close> are represented by a
  constructor that keeps their interpolated arguments).

  \<^item> \<open>Phone_format v\<close>: the message of \<^verbatim>\<open>Phone.__init__\<close> (``the phone number must consist
    of 10 digits, got: v'');
  \<^item> \<open>Invalid_date_format\<close>: \<^verbatim>\<open>"Invalid date format. Use DD.MM.YYYY"\<close> of \<^verbatim>\<open>Birthday.__init__\<close>;
  \<^item> \<open>Phone_not_found p n\<close>: the message of \<^verbatim>\<open>remove_phone\<close> and \<^verbatim>\<open>edit_phone\<close>
    (``phone p not found in record n'');
  \<^item> \<open>Not_in_list\<close>: raised by \<^verbatim>\<open>list.index\<close> and \<^verbatim>\<open>list.remove\<close>;
  \<^item> \<open>Time_data_mismatch\<close>, \<open>Unconverted_data\<close>: raised by \<^verbatim>\<open>datetime.strptime\<close>;
  \<^item> \<open>Year_out_of_range\<close>, \<open>Month_out_of_range\<close>, \<open>Day_out_of_range\<close>: raised by the
    constructor of \<^verbatim>\<open>datetime.date\<close> (hence by \<^verbatim>\<open>date.replace\<close>);
  \<^item> \<open>Date_value_out_of_range\<close>: the \<^verbatim>\<open>OverflowError\<close> of \<^verbatim>\<open>date + timedelta\<close>.
\<close>

datatype message =
    Phone_format string
  | Invalid_date_format
  | Phone_not_found string string
  | Not_in_list
  | Time_data_mismatch
  | Unconverted_data "nat list"
  | Year_out_of_range
  | Month_out_of_range
  | Day_out_of_range
  | Date_value_out_of_range

datatype error = ValueError message | OverflowError message

type_synonym 'a result = "error + 'a"

section \<open>Strings\<close>

text \<open>
  A Python \<^verbatim>\<open>str\<close> is a sequence of code points.  Names, phone numbers and the texts
  that the program renders are values of \<^typ>\<open>string\<close>: a \<^typ>\<open>char\<close> is read as the code
  point with that number (\<open>CHR 0xB2\<close> is SUPERSCRIPT TWO), which covers the strings whose
  code points are below 256, and \<^const>\<open>length\<close> is \<^verbatim>\<open>len\<close>.

  \<^verbatim>\<open>str.isdigit\<close> holds for a non-empty string all of whose characters have the Unicode
  property Numeric_Type=Digit or Numeric_Type=Decimal.  Below code point 256 these are the
  ten ASCII digits and the superscripts \<^verbatim>\<open>U+00B2\<close>, \<^verbatim>\<open>U+00B3\<close>, \<^verbatim>\<open>U+00B9\<close>.
\<close>

definition ascii_digits :: string where
  "ascii_digits = ''0123456789''"

definition is_decimal_char :: "char \<Rightarrow> bool" where
  "is_decimal_char c = (c \<in> set ascii_digits)"

definition is_digit_char :: "char \<Rightarrow> bool" where
  "is_digit_char c = (c \<in> set (ascii_digits @ [CHR 0xB2, CHR 0xB3, CHR 0xB9]))"

definition isdigit :: "string \<Rightarrow> bool" where
  "isdigit s = (s \<noteq> [] \<and> list_all is_digit_char s)"

text \<open>
  The text given to \<^verbatim>\<open>Birthday\<close> is matched against a regular expression whose class
  \<^verbatim>\<open>\d\<close> holds of every decimal digit of Unicode, so that text is modelled with all its
  code points, as a list of natural numbers; \<open>code_points\<close> is the embedding of a
  \<^typ>\<open>string\<close>.
\<close>

definition code_points :: "string \<Rightarrow> nat list" where
  "code_points s = map of_char s"

text \<open>
  The decimal digits of Unicode (general category Nd: the characters that \<^verbatim>\<open>\d\<close> matches,
  of which \<^verbatim>\<open>str.isdecimal\<close> holds and that \<^verbatim>\<open>int\<close> converts) come in runs of ten
  consecutive code points with the values 0 to 9.  ASCII has the one run from \<^verbatim>\<open>0\<close> to
  \<^verbatim>\<open>9\<close> (code points 48 to 57).  The runs beyond ASCII depend on the version of Unicode
  that the interpreter carries (ARABIC-INDIC DIGIT ZERO to NINE, \<^verbatim>\<open>U+0660\<close> to \<^verbatim>\<open>U+0669\<close>,
  is the first of them); they are a parameter of the model, the list \<open>zeros\<close> of the code
  points of their first characters, the digits zero.
\<close>

definition decimal_value :: "nat list \<Rightarrow> nat \<Rightarrow> nat option" where
  "decimal_value zeros c =
     (if 48 \<le> c \<and> c \<le> 57 then Some (c - 48)
      else case find (\<lambda>z. 128 \<le> z \<and> z \<le> c \<and> c < z + 10) zeros of
             None \<Rightarrow> None
           | Some z \<Rightarrow> Some (c - z))"

definition is_decimal :: "nat list \<Rightarrow> nat \<Rightarrow> bool" where
  "is_decimal zeros c = (decimal_value zeros c \<noteq> None)"

section \<open>Field value types\<close>

datatype Name = mk_Name (Name_value: string)

datatype Phone = mk_Phone (Phone_value: string)

text \<open>\<^verbatim>\<open>Field.__str__\<close>, as inherited by \<^verbatim>\<open>Phone\<close>: \<^verbatim>\<open>str(self.value)\<close>.\<close>

definition Phone_str :: "Phone \<Rightarrow> string" where
  "Phone_str p = Phone_value p"

text \<open>
  \<^verbatim>\<open>Phone.__init__\<close>; the argument is a \<^verbatim>\<open>str\<close>, so the \<^verbatim>\<open>isinstance\<close> test passes.
\<close>

definition Phone_init :: "string \<Rightarrow> Phone result" where
  "Phone_init v =
     (if \<not> isdigit v \<or> length v \<noteq> 10 then Inl (ValueError (Phone_format v))
      else Inr (mk_Phone v))"

section \<open>Calendar dates\<close>

text \<open>
  \<^verbatim>\<open>datetime.date\<close> of the standard library, after its reference implementation
  (\<^verbatim>\<open>_pydatetime.py\<close>): a proleptic Gregorian date with \<open>1 \<le> year \<le> 9999\<close>.
\<close>

record date =
  year :: nat
  month :: nat
  day :: nat

definition MINYEAR :: nat where "MINYEAR = 1"
definition MAXYEAR :: nat where "MAXYEAR = 9999"
definition MAXORDINAL :: nat where "MAXORDINAL = 3652059"

text \<open>
  The tables \<^verbatim>\<open>_DAYS_IN_MONTH\<close> and \<^verbatim>\<open>_DAYS_BEFORE_MONTH\<close>, indexed by the month; the
  entry at index 0 is a placeholder that is never read (\<^verbatim>\<open>-1\<close> in Python).
\<close>

definition DAYS_IN_MONTH :: "nat list" where
  "DAYS_IN_MONTH = [0, 31, 28, 31, 30, 31, 30, 31, 31, 30, 31, 30, 31]"

definition DAYS_BEFORE_MONTH :: "nat list" where
  "DAYS_BEFORE_MONTH = [0, 0, 31, 59, 90, 120, 151, 181, 212, 243, 273, 304, 334]"

definition is_leap :: "nat \<Rightarrow> bool" where
  "is_leap y = (y mod 4 = 0 \<and> (y mod 100 \<noteq> 0 \<or> y mod 400 = 0))"

definition days_before_year :: "nat \<Rightarrow> nat" where
  "days_before_year y =
     (let y' = y - 1 in y' * 365 + y' div 4 - y' div 100 + y' div 400)"

definition days_in_month :: "nat \<Rightarrow> nat \<Rightarrow> nat" where
  "days_in_month y m = (if m = 2 \<and> is_leap y then 29 else DAYS_IN_MONTH ! m)"

definition days_before_month :: "nat \<Rightarrow> nat \<Rightarrow> nat" where
  "days_before_month y m = DAYS_BEFORE_MONTH ! m + (if m > 2 \<and> is_leap y then 1 else 0)"

definition ymd2ord :: "nat \<Rightarrow> nat \<Rightarrow> nat \<Rightarrow> nat" where
  "ymd2ord y m d = days_before_year y + days_before_month y m + d"

definition DI400Y :: nat where "DI400Y = 146097"
definition DI100Y :: nat where "DI100Y = 36524"
definition DI4Y :: nat where "DI4Y = 1461"

text \<open>\<^verbatim>\<open>_ord2ymd\<close>: the date with a given ordinal (1 is 1 January of year 1).\<close>

definition ord2ymd :: "nat \<Rightarrow> nat \<times> nat \<times> nat" where
  "ord2ymd n0 =
     (let n = n0 - 1;
          n400 = n div DI400Y; n = n mod DI400Y;
          y = n400 * 400 + 1;
          n100 = n div DI100Y; n = n mod DI100Y;
          n4 = n div DI4Y; n = n mod DI4Y;
          n1 = n div 365; n = n mod 365;
          y = y + n100 * 100 + n4 * 4 + n1
      in if n1 = 4 \<or> n100 = 4 then (y - 1, 12, 31)
         else
           let leapyear = (n1 = 3 \<and> (n4 \<noteq> 24 \<or> n100 = 3));
               m = (n + 50) div 32;
               preceding = DAYS_BEFORE_MONTH ! m + (if m > 2 \<and> leapyear then 1 else 0)
           in if preceding > n then
                let m = m - 1;
                    preceding = preceding - (DAYS_IN_MONTH ! m + (if m = 2 \<and> leapyear then 1 else 0))
                in (y, m, n - preceding + 1)
              else (y, m, n - preceding + 1))"

text \<open>
  The constructor \<^verbatim>\<open>date(year, month, day)\<close> with its range checks
  (\<^verbatim>\<open>_check_date_fields\<close>), each of which raises \<^verbatim>\<open>ValueError\<close>.
\<close>

definition date_new :: "nat \<Rightarrow> nat \<Rightarrow> nat \<Rightarrow> date result" where
  "date_new y m d =
     (if \<not> (MINYEAR \<le> y \<and> y \<le> MAXYEAR) then Inl (ValueError Year_out_of_range)
      else if \<not> (1 \<le> m \<and> m \<le> 12) then Inl (ValueError Month_out_of_range)
      else if \<not> (1 \<le> d \<and> d \<le> days_in_month y m) then Inl (ValueError Day_out_of_range)
      else Inr \<lparr>year = y, month = m, day = d\<rparr>)"

text \<open>The values that the constructor can produce.\<close>

definition valid_date :: "date \<Rightarrow> bool" where
  "valid_date dt =
     (MINYEAR \<le> year dt \<and> year dt \<le> MAXYEAR \<and> 1 \<le> month dt \<and> month dt \<le> 12 \<and>
      1 \<le> day dt \<and> day dt \<le> days_in_month (year dt) (month dt))"

text \<open>\<^verbatim>\<open>date.replace(year=y)\<close>: a new date built by the constructor.\<close>

definition replace_year :: "date \<Rightarrow> nat \<Rightarrow> date result" where
  "replace_year dt y = date_new y (month dt) (day dt)"

definition toordinal :: "date \<Rightarrow> nat" where
  "toordinal dt = ymd2ord (year dt) (month dt) (day dt)"

definition fromordinal :: "nat \<Rightarrow> date" where
  "fromordinal n = (case ord2ymd n of (y, m, d) \<Rightarrow> \<lparr>year = y, month = m, day = d\<rparr>)"

text \<open>\<^verbatim>\<open>date.weekday()\<close>: Monday is 0, Saturday 5, Sunday 6.\<close>

definition weekday :: "date \<Rightarrow> nat" where
  "weekday dt = (toordinal dt + 6) mod 7"

text \<open>\<^verbatim>\<open>date + timedelta(days=k)\<close> for a non-negative number of days.\<close>

definition date_add_days :: "date \<Rightarrow> nat \<Rightarrow> date result" where
  "date_add_days dt k =
     (let ord = toordinal dt + k
      in if 0 < ord \<and> ord \<le> MAXORDINAL then Inr (fromordinal ord)
         else Inl (OverflowError Date_value_out_of_range))"

text \<open>The comparisons of dates: lexicographic on (year, month, day).\<close>

definition date_less :: "date \<Rightarrow> date \<Rightarrow> bool" where
  "date_less a b =
     (year a < year b \<or>
      (year a = year b \<and> (month a < month b \<or> (month a = month b \<and> day a < day b))))"

definition date_le :: "date \<Rightarrow> date \<Rightarrow> bool" where
  "date_le a b =
     (year a < year b \<or>
      (year a = year b \<and> (month a < month b \<or> (month a = month b \<and> day a \<le> day b))))"

subsection \<open>Rendering: \<^verbatim>\<open>strftime("%d.%m.%Y")\<close>\<close>

text \<open>
  \<^verbatim>\<open>%d\<close> and \<^verbatim>\<open>%m\<close> are the day and the month as zero-padded decimal numbers of width 2.
  \<^verbatim>\<open>%Y\<close> is the year as a decimal number; the text is produced by the \<^verbatim>\<open>strftime\<close> of the
  platform's C library, and whether a year below 1000 is zero-padded to width 4 depends on
  the platform and on the version of Python: the library's documentation shows \<^verbatim>\<open>0001\<close> to
  \<^verbatim>\<open>9999\<close>, while CPython 3.11 on Linux renders the year 999 as \<^verbatim>\<open>999\<close>.  The parameter
  \<open>pad\<close> of the model says whether the platform pads.
\<close>

definition digit_char :: "nat \<Rightarrow> char" where
  "digit_char n = ascii_digits ! n"

fun decimal :: "nat \<Rightarrow> string" where
  "decimal n = (if n < 10 then [digit_char n] else decimal (n div 10) @ [digit_char (n mod 10)])"

declare decimal.simps [simp del]

definition zfill :: "nat \<Rightarrow> string \<Rightarrow> string" where
  "zfill w s = replicate (w - length s) (CHR ''0'') @ s"

definition strftime_dmY :: "bool \<Rightarrow> date \<Rightarrow> string" where
  "strftime_dmY pad dt =
     zfill 2 (decimal (day dt)) @ ''.'' @ zfill 2 (decimal (month dt)) @ ''.'' @
     (if pad then zfill 4 (decimal (year dt)) else decimal (year dt))"

subsection \<open>Parsing: \<^verbatim>\<open>datetime.strptime(value, "%d.%m.%Y")\<close>\<close>

text \<open>
  \<^verbatim>\<open>_strptime\<close> turns the format into the regular expression

  \<^verbatim>\<open>(?P<d>3[0-1]|[1-2]\d|0[1-9]|[1-9]| [1-9])\.(?P<m>1[0-2]|0[1-9]|[1-9])\.(?P<Y>\d\d\d\d)\<close>

  and matches it at the start of the text.  The digits, the blank and the dot that the
  expression names are those of ASCII; \<^verbatim>\<open>\d\<close> is any decimal digit of Unicode.  A matcher
  returns every way of matching a prefix of its input, as (matched text, remaining text),
  in the order in which the backtracking matcher of \<^verbatim>\<open>re\<close> tries them; the match found is
  the first one.
\<close>

type_synonym matcher = "nat list \<Rightarrow> (nat list \<times> nat list) list"

definition re_char :: "(nat \<Rightarrow> bool) \<Rightarrow> matcher" where
  "re_char P s = (case s of [] \<Rightarrow> [] | c # r \<Rightarrow> if P c then [([c], r)] else [])"

definition re_seq :: "matcher \<Rightarrow> matcher \<Rightarrow> matcher" where
  "re_seq p q s = concat (map (\<lambda>(a, r). map (\<lambda>(b, r'). (a @ b, r')) (q r)) (p s))"

definition re_alt :: "matcher list \<Rightarrow> matcher" where
  "re_alt ps s = concat (map (\<lambda>p. p s) ps)"

text \<open>A character, or a class of characters given by its members.\<close>

definition one_of :: "string \<Rightarrow> nat \<Rightarrow> bool" where
  "one_of cs c = (c \<in> set (code_points cs))"

definition group_d :: "nat list \<Rightarrow> matcher" where
  "group_d zeros =
     re_alt
       [re_seq (re_char (one_of ''3'')) (re_char (one_of ''01'')),
        re_seq (re_char (one_of ''12'')) (re_char (is_decimal zeros)),
        re_seq (re_char (one_of ''0'')) (re_char (one_of ''123456789'')),
        re_char (one_of ''123456789''),
        re_seq (re_char (one_of '' '')) (re_char (one_of ''123456789''))]"

definition group_m :: matcher where
  "group_m =
     re_alt
       [re_seq (re_char (one_of ''1'')) (re_char (one_of ''012'')),
        re_seq (re_char (one_of ''0'')) (re_char (one_of ''123456789'')),
        re_char (one_of ''123456789'')]"

definition group_Y :: "nat list \<Rightarrow> matcher" where
  "group_Y zeros =
     re_seq (re_char (is_decimal zeros))
       (re_seq (re_char (is_decimal zeros))
          (re_seq (re_char (is_decimal zeros)) (re_char (is_decimal zeros))))"

definition re_dot :: matcher where
  "re_dot = re_char (one_of ''.'')"

text \<open>All matches of the whole expression: the groups d, m, Y and the unmatched rest.\<close>

definition format_regex_matches ::
  "nat list \<Rightarrow> nat list \<Rightarrow> (nat list \<times> nat list \<times> nat list \<times> nat list) list" where
  "format_regex_matches zeros s =
     concat (map (\<lambda>(d, r1).
       concat (map (\<lambda>(x1, r2).
         concat (map (\<lambda>(m, r3).
           concat (map (\<lambda>(x2, r4).
             map (\<lambda>(y, r5). (d, m, y, r5)) (group_Y zeros r4))
           (re_dot r3)))
         (group_m r2)))
       (re_dot r1)))
     (group_d zeros s))"

text \<open>
  The number that a sequence of decimal digits denotes, and \<^verbatim>\<open>int(text)\<close> for the text of
  a group: decimal digits, after the leading blank that the last alternative of group d
  admits.  (\<^verbatim>\<open>int\<close> raises on a character that is not a decimal digit; the groups hold
  none.)
\<close>

definition digits_number :: "nat list \<Rightarrow> nat list \<Rightarrow> nat" where
  "digits_number zeros s =
     foldl (\<lambda>a c. 10 * a + (case decimal_value zeros c of None \<Rightarrow> 0 | Some v \<Rightarrow> v)) 0 s"

definition py_int :: "nat list \<Rightarrow> nat list \<Rightarrow> nat" where
  "py_int zeros s = digits_number zeros (dropWhile (one_of '' '') s)"

text \<open>
  \<^verbatim>\<open>strptime\<close> raises \<^verbatim>\<open>ValueError\<close> when the expression does not match, when text remains
  after the match, and when the three numbers are not a date.
\<close>

definition strptime_dmY :: "nat list \<Rightarrow> nat list \<Rightarrow> date result" where
  "strptime_dmY zeros s =
     (case format_regex_matches zeros s of
        [] \<Rightarrow> Inl (ValueError Time_data_mismatch)
      | (d, m, y, rest) # others \<Rightarrow>
          if rest \<noteq> [] then Inl (ValueError (Unconverted_data rest))
          else date_new (py_int zeros y) (py_int zeros m) (py_int zeros d))"

subsection \<open>Birthday\<close>

datatype Birthday = mk_Birthday (Birthday_value: date)

text \<open>
  \<^verbatim>\<open>Birthday.__init__\<close>: every \<^verbatim>\<open>ValueError\<close> of \<^verbatim>\<open>strptime\<close> is caught and replaced; any
  other exception would pass through.
\<close>

definition Birthday_init :: "nat list \<Rightarrow> nat list \<Rightarrow> Birthday result" where
  "Birthday_init zeros v =
     (case strptime_dmY zeros v of
        Inl (ValueError m) \<Rightarrow> Inl (ValueError Invalid_date_format)
      | Inl (OverflowError m) \<Rightarrow> Inl (OverflowError m)
      | Inr dt \<Rightarrow> Inr (mk_Birthday dt))"

text \<open>\<^verbatim>\<open>Birthday.__str__\<close>.\<close>

definition Birthday_str :: "bool \<Rightarrow> Birthday \<Rightarrow> string" where
  "Birthday_str pad b = strftime_dmY pad (Birthday_value b)"

section \<open>Record\<close>

text \<open>
  A contact: \<^verbatim>\<open>self.name\<close>, \<^verbatim>\<open>self.phones\<close> (a Python list, in order) and \<^verbatim>\<open>self.birthday\<close>
  (\<^verbatim>\<open>None\<close> or a \<^verbatim>\<open>Birthday\<close>).  The methods mutate the object; in the model each of them
  returns the outcome (\<open>Inl\<close> the exception raised, \<open>Inr\<close> the value returned) together with
  the state of the record when the call ends, so that the state after a raised exception is
  part of the model.
\<close>

record Record =
  name :: Name
  phones :: "Phone list"
  birthday :: "Birthday option"

definition Record_init :: "string \<Rightarrow> Record" where
  "Record_init n = \<lparr>name = mk_Name n, phones = [], birthday = None\<rparr>"

text \<open>
  \<^verbatim>\<open>list.index(x)\<close> and \<^verbatim>\<open>list.remove(x)\<close>: the first element equal to \<open>x\<close>, and
  \<^verbatim>\<open>ValueError\<close> when there is none.  \<^verbatim>\<open>Phone\<close> defines no \<^verbatim>\<open>__eq__\<close>, so Python compares
  the objects by identity; the object searched for is always the one \<^verbatim>\<open>find_phone\<close>
  returned, the first of the list with the given value, hence the first identical element
  is the first element with that value.
\<close>

fun list_index :: "'a list \<Rightarrow> 'a \<Rightarrow> nat result" where
  "list_index [] x = Inl (ValueError Not_in_list)"
| "list_index (y # ys) x =
     (if y = x then Inr 0
      else (case list_index ys x of Inl e \<Rightarrow> Inl e | Inr i \<Rightarrow> Inr (Suc i)))"

definition list_remove :: "'a list \<Rightarrow> 'a \<Rightarrow> 'a list result" where
  "list_remove xs x = (if x \<in> set xs then Inr (remove1 x xs) else Inl (ValueError Not_in_list))"

text \<open>\<^verbatim>\<open>Record.find_phone\<close>: the loop returns the first phone whose value is \<open>phone\<close>.\<close>

fun find_phone_loop :: "Phone list \<Rightarrow> string \<Rightarrow> Phone option" where
  "find_phone_loop [] phone = None"
| "find_phone_loop (p # ps) phone =
     (if Phone_value p = phone then Some p else find_phone_loop ps phone)"

definition find_phone :: "Record \<Rightarrow> string \<Rightarrow> Phone option" where
  "find_phone r phone = find_phone_loop (phones r) phone"

text \<open>
  \<^verbatim>\<open>Record.add_phone\<close>: the argument \<^verbatim>\<open>Phone(phone)\<close> is evaluated before \<^verbatim>\<open>append\<close> is
  called.
\<close>

definition add_phone :: "Record \<Rightarrow> string \<Rightarrow> unit result \<times> Record" where
  "add_phone r phone =
     (case Phone_init phone of
        Inl e \<Rightarrow> (Inl e, r)
      | Inr p \<Rightarrow> (Inr (), r\<lparr>phones := phones r @ [p]\<rparr>))"

text \<open>\<^verbatim>\<open>Record.remove_phone\<close>; a \<^verbatim>\<open>Phone\<close> object is always true in \<^verbatim>\<open>if phone_obj\<close>.\<close>

definition remove_phone :: "Record \<Rightarrow> string \<Rightarrow> unit result \<times> Record" where
  "remove_phone r phone =
     (case find_phone r phone of
        Some phone_obj \<Rightarrow>
          (case list_remove (phones r) phone_obj of
             Inl e \<Rightarrow> (Inl e, r)
           | Inr ps \<Rightarrow> (Inr (), r\<lparr>phones := ps\<rparr>))
      | None \<Rightarrow> (Inl (ValueError (Phone_not_found phone (Name_value (name r)))), r))"

text \<open>
  \<^verbatim>\<open>Record.edit_phone\<close>: in \<^verbatim>\<open>self.phones[idx] = Phone(new_phone)\<close> the right-hand side is
  evaluated first, so a rejected \<open>new_phone\<close> leaves the list as it was.
\<close>

definition edit_phone :: "Record \<Rightarrow> string \<Rightarrow> string \<Rightarrow> unit result \<times> Record" where
  "edit_phone r old_phone new_phone =
     (case find_phone r old_phone of
        Some phone_obj \<Rightarrow>
          (case list_index (phones r) phone_obj of
             Inl e \<Rightarrow> (Inl e, r)
           | Inr idx \<Rightarrow>
               (case Phone_init new_phone of
                  Inl e \<Rightarrow> (Inl e, r)
                | Inr p \<Rightarrow> (Inr (), r\<lparr>phones := (phones r)[idx := p]\<rparr>)))
      | None \<Rightarrow> (Inl (ValueError (Phone_not_found old_phone (Name_value (name r)))), r))"

text \<open>\<^verbatim>\<open>Record.add_birthday\<close>.\<close>

definition add_birthday :: "nat list \<Rightarrow> Record \<Rightarrow> nat list \<Rightarrow> unit result \<times> Record" where
  "add_birthday zeros r v =
     (case Birthday_init zeros v of
        Inl e \<Rightarrow> (Inl e, r)
      | Inr b \<Rightarrow> (Inr (), r\<lparr>birthday := Some b\<rparr>))"

section \<open>AddressBook\<close>

text \<open>
  \<^verbatim>\<open>AddressBook\<close> is a \<^verbatim>\<open>UserDict\<close>: its \<^verbatim>\<open>data\<close> is a Python dict from names to records,
  which keeps the order of insertion and holds each key once.  It is modelled by an
  association list; assigning to a key that exists replaces the value in place, and a new
  key goes to the end (\<^const>\<open>AList.update\<close>).
\<close>

type_synonym AddressBook = "(string \<times> Record) list"

definition add_record :: "AddressBook \<Rightarrow> Record \<Rightarrow> AddressBook" where
  "add_record book record = AList.update (Name_value (name record)) record book"

text \<open>
  \<^verbatim>\<open>AddressBook.find\<close>, which is \<^verbatim>\<open>self.data.get(name)\<close>, and \<^verbatim>\<open>AddressBook.delete\<close>.
\<close>

definition find_record :: "AddressBook \<Rightarrow> string \<Rightarrow> Record option" where
  "find_record book n = map_of book n"

definition delete :: "AddressBook \<Rightarrow> string \<Rightarrow> AddressBook" where
  "delete book n = (if n \<in> fst ` set book then AList.delete n book else book)"

subsection \<open>Upcoming birthdays\<close>

text \<open>
  An element of the list that \<^verbatim>\<open>get_upcoming_birthdays\<close> returns: the dict with the keys
  \<^verbatim>\<open>"name"\<close> and \<^verbatim>\<open>"congratulation_date"\<close>.
\<close>

record entry =
  entry_name :: string
  congratulation_date :: string

text \<open>
  The body of the loop for one record: \<open>Inl\<close> when an exception leaves the loop,
  \<open>Inr None\<close> when nothing is appended, \<open>Inr (Some e)\<close> when \<open>e\<close> is appended.
\<close>

definition upcoming_entry :: "bool \<Rightarrow> date \<Rightarrow> date \<Rightarrow> Record \<Rightarrow> entry option result" where
  "upcoming_entry pad today next_week record =
     (case birthday record of
        None \<Rightarrow> Inr None
      | Some b \<Rightarrow>
          (case replace_year (Birthday_value b) (year today) of
             Inl e \<Rightarrow> Inl e
           | Inr bday_this_year \<Rightarrow>
               (case (if date_less bday_this_year today
                      then replace_year bday_this_year (year today + 1)
                      else Inr bday_this_year) of
                  Inl e \<Rightarrow> Inl e
                | Inr bday_this_year \<Rightarrow>
                    if date_le today bday_this_year \<and> date_le bday_this_year next_week then
                      (case (if weekday bday_this_year = 5 then date_add_days bday_this_year 2
                             else if weekday bday_this_year = 6 then date_add_days bday_this_year 1
                             else Inr bday_this_year) of
                         Inl e \<Rightarrow> Inl e
                       | Inr congratulation \<Rightarrow>
                           Inr (Some \<lparr>entry_name = Name_value (name record),
                                      congratulation_date = strftime_dmY pad congratulation\<rparr>))
                    else Inr None)))"

fun upcoming_loop ::
  "bool \<Rightarrow> date \<Rightarrow> date \<Rightarrow> Record list \<Rightarrow> entry list \<Rightarrow> entry list result" where
  "upcoming_loop pad today next_week [] upcoming = Inr upcoming"
| "upcoming_loop pad today next_week (record # rest) upcoming =
     (case upcoming_entry pad today next_week record of
        Inl e \<Rightarrow> Inl e
      | Inr None \<Rightarrow> upcoming_loop pad today next_week rest upcoming
      | Inr (Some e) \<Rightarrow> upcoming_loop pad today next_week rest (upcoming @ [e]))"

text \<open>
  \<^verbatim>\<open>AddressBook.get_upcoming_birthdays\<close>.  The date that \<^verbatim>\<open>date.today()\<close> reads from the
  clock is the parameter \<open>today\<close>, and \<open>pad\<close> is the platform's rendering of years.  The
  result is the outcome of the call together with the book at its end.
\<close>

definition get_upcoming_birthdays ::
  "bool \<Rightarrow> date \<Rightarrow> AddressBook \<Rightarrow> entry list result \<times> AddressBook" where
  "get_upcoming_birthdays pad today book =
     (case date_add_days today 7 of
        Inl e \<Rightarrow> (Inl e, book)
      | Inr next_week \<Rightarrow> (upcoming_loop pad today next_week (map snd book) [], book))"

section \<open>The texts that denote a date\<close>

text \<open>
  The ways of writing a day, a month and a year that \<^verbatim>\<open>Birthday\<close> turns out to accept.

  In ASCII, a day is written with two digits, and a day below 10 also with one digit, or
  with a blank and one digit; a month is written with two digits, and a month below 10 also
  with one digit.  The first text of \<open>day_texts n\<close> and of \<open>month_texts n\<close> is the one with
  two digits.
\<close>

definition day_texts :: "nat \<Rightarrow> string list" where
  "day_texts n =
     zfill 2 (decimal n) # (if n < 10 then [decimal n, CHR '' '' # decimal n] else [])"

definition month_texts :: "nat \<Rightarrow> string list" where
  "month_texts n = zfill 2 (decimal n) # (if n < 10 then [decimal n] else [])"

text \<open>The texts of the days 1 to 31 and of the months 1 to 12.\<close>

definition all_day_texts :: "string list" where
  "all_day_texts = concat (map day_texts
     [1, 2, 3, 4, 5, 6, 7, 8, 9, 10, 11, 12, 13, 14, 15, 16, 17, 18, 19, 20,
      21, 22, 23, 24, 25, 26, 27, 28, 29, 30, 31])"

definition all_month_texts :: "string list" where
  "all_month_texts = concat (map month_texts [1, 2, 3, 4, 5, 6, 7, 8, 9, 10, 11, 12])"

text \<open>
  A text of the day \<open>n\<close>: one of its ASCII texts or, for a day from 10 to 29, the ASCII
  digit of the tens followed by any decimal digit of Unicode with the value of the units.
\<close>

definition is_day_text :: "nat list \<Rightarrow> nat \<Rightarrow> nat list \<Rightarrow> bool" where
  "is_day_text zeros n D =
     (D \<in> set (map code_points (day_texts n)) \<or>
      (10 \<le> n \<and> n \<le> 29 \<and>
       (case D of
          [a, c] \<Rightarrow> [a] = code_points (decimal (n div 10)) \<and> decimal_value zeros c = Some (n mod 10)
        | _ \<Rightarrow> False)))"

text \<open>A text of the month \<open>n\<close>: one of its ASCII texts.\<close>

definition is_month_text :: "nat \<Rightarrow> nat list \<Rightarrow> bool" where
  "is_month_text n M = (M \<in> set (map code_points (month_texts n)))"

text \<open>A text of the year \<open>y\<close>: four decimal digits of Unicode that denote \<open>y\<close>.\<close>

definition is_year_text :: "nat list \<Rightarrow> nat \<Rightarrow> nat list \<Rightarrow> bool" where
  "is_year_text zeros y Y =
     (length Y = 4 \<and> list_all (is_decimal zeros) Y \<and> digits_number zeros Y = y)"

text \<open>
  The fields of a text: the parts between the occurrences of a separator
  (\<^verbatim>\<open>str.split(sep)\<close>).
\<close>

fun split_on :: "nat \<Rightarrow> nat list \<Rightarrow> nat list list" where
  "split_on sep [] = [[]]"
| "split_on sep (c # cs) =
     (if c = sep then [] # split_on sep cs
      else (case split_on sep cs of [] \<Rightarrow> [[c]] | f # fs \<Rightarrow> (c # f) # fs))"

text \<open>
  A text of the date \<open>dt\<close>: three fields separated by two dots, which are a text of the
  day, of the month and of the year of \<open>dt\<close>.
\<close>

definition accepted_text :: "nat list \<Rightarrow> date \<Rightarrow> nat list \<Rightarrow> bool" where
  "accepted_text zeros dt s =
     (case split_on (of_char CHR ''.'') s of
        [D, M, Y] \<Rightarrow>
          is_day_text zeros (day dt) D \<and> is_month_text (month dt) M \<and> is_year_text zeros (year dt) Y
      | _ \<Rightarrow> False)"


section \<open>The claims about upcoming birthdays, in the specification's words\<close>






section \<open>Example values\<close>

text \<open>
  Monday 10 March 2025, a day of a year that is not a leap year, and a book with Alice,
  born on 10 March, and Bob, born on 29 February.
\<close>

definition example_today :: date where
  "example_today = \<lparr>year = 2025, month = 3, day = 10\<rparr>"


definition bob_feb29 :: Record where
  "bob_feb29 = \<lparr>name = mk_Name ''Bob'', phones = [],
                birthday = Some (mk_Birthday \<lparr>year = 2000, month = 2, day = 29\<rparr>)\<rparr>"












text \<open>The record of the specification's example, with two phones and no birthday.\<close>

definition example_record :: Record where
  "example_record =
     \<lparr>name = mk_Name ''Ann'',
      phones = [mk_Phone ''1111111111'', mk_Phone ''2222222222''],
      birthday = None\<rparr>"

text \<open>
  The decimal digits beyond ASCII of Unicode 14.0, the version that CPython 3.11 carries:
  the code points of the 65 digits zero, from ARABIC-INDIC DIGIT ZERO (\<^verbatim>\<open>U+0660\<close>) to
  SEGMENTED DIGIT ZERO (\<^verbatim>\<open>U+1FBF0\<close>).
\<close>

definition unicode_14_zeros :: "nat list" where
  "unicode_14_zeros =
     [0x660, 0x6F0, 0x7C0, 0x966, 0x9E6, 0xA66, 0xAE6, 0xB66, 0xBE6, 0xC66, 0xCE6,
      0xD66, 0xDE6, 0xE50, 0xED0, 0xF20, 0x1040, 0x1090, 0x17E0, 0x1810, 0x1946,
      0x19D0, 0x1A80, 0x1A90, 0x1B50, 0x1BB0, 0x1C40, 0x1C50, 0xA620, 0xA8D0, 0xA900,
      0xA9D0, 0xA9F0, 0xAA50, 0xABF0, 0xFF10, 0x104A0, 0x10D30, 0x11066, 0x110F0,
      0x11136, 0x111D0, 0x112F0, 0x11450, 0x114D0, 0x11650, 0x116C0, 0x11730,
      0x118E0, 0x11950, 0x11C50, 0x11D50, 0x11DA0, 0x16A60, 0x16AC0, 0x16B50,
      0x1D7CE, 0x1D7D8, 0x1D7E2, 0x1D7EC, 0x1D7F6, 0x1E140, 0x1E2F0, 0x1E950,
      0x1FBF0]"



definition superscript_twos :: string where
  "superscript_twos =
     [CHR 0xB2, CHR 0xB2, CHR 0xB2, CHR 0xB2, CHR 0xB2,
      CHR 0xB2, CHR 0xB2, CHR 0xB2, CHR 0xB2, CHR 0xB2]"

section \<open>Properties of the field types and of Record\<close>


lemma find_phone_loop_Some:
  "find_phone_loop ps v = Some p \<Longrightarrow>
     \<exists>pre post. ps = pre @ p # post \<and> Phone_value p = v \<and> (\<forall>q \<in> set pre. Phone_value q \<noteq> v)"
proof (induction ps)
  case Nil
  then show ?case by simp
next
  case (Cons a ps)
  show ?case
  proof (cases "Phone_value a = v")
    case True
    with Cons.prems have "a = p" by simp
    with True have "a # ps = [] @ p # ps \<and> Phone_value p = v \<and> (\<forall>q \<in> set []. Phone_value q \<noteq> v)"
      by simp
    then show ?thesis by blast
  next
    case False
    with Cons.prems have "find_phone_loop ps v = Some p" by simp
    from Cons.IH[OF this] obtain pre post where
      "ps = pre @ p # post" "Phone_value p = v" "\<forall>q \<in> set pre. Phone_value q \<noteq> v" by blast
    with False have "a # ps = (a # pre) @ p # post \<and> Phone_value p = v
        \<and> (\<forall>q \<in> set (a # pre). Phone_value q \<noteq> v)" by simp
    then show ?thesis by blast
  qed
qed


lemma remove1_first:
  "\<forall>q \<in> set pre. q \<noteq> p \<Longrightarrow> remove1 p (pre @ p # post) = pre @ post"
  by (induction pre) auto


lemma decimal_is_digit: "is_decimal_char c \<Longrightarrow> is_digit_char c"
  by (simp add: is_decimal_char_def is_digit_char_def)

subsection \<open>Phone construction\<close>

text \<open>
  What \<^verbatim>\<open>Phone\<close> accepts: the strings of length 10 all of whose characters are digits in
  the sense of \<^verbatim>\<open>str.isdigit\<close>, among them the strings of ten decimal digits; the
  phone's rendering is then the string given.  Every other string is rejected with the
  validation error.
\<close>

lemma Phone_init_iff:
  "(length s = 10 \<and> list_all is_decimal_char s \<longrightarrow>
      Phone_init s = Inr (mk_Phone s) \<and> Phone_str (mk_Phone s) = s)
   \<and> (length s = 10 \<and> list_all is_digit_char s \<longrightarrow>
      Phone_init s = Inr (mk_Phone s) \<and> Phone_str (mk_Phone s) = s)
   \<and> (\<not> (length s = 10 \<and> list_all is_digit_char s) \<longrightarrow>
      Phone_init s = Inl (ValueError (Phone_format s)))"
proof -
  have dec: "list_all is_decimal_char s \<Longrightarrow> list_all is_digit_char s"
    by (induction s) (auto simp: decimal_is_digit)
  have ne: "length s = 10 \<Longrightarrow> s \<noteq> []" by auto
  show ?thesis
    using dec ne by (auto simp: Phone_init_def isdigit_def Phone_str_def)
qed

text \<open>
  Claim C3 does not hold of the code.  The string of ten characters SUPERSCRIPT TWO
  (\<^verbatim>\<open>U+00B2\<close>) has length 10 and none of its characters is a decimal digit, and
  \<^verbatim>\<open>Phone\<close> accepts it, since \<^verbatim>\<open>str.isdigit\<close> holds of it: the validation that the
  docstring and the error message of \<^verbatim>\<open>Phone\<close> describe as ``10 digits'' lets a string
  without any of the digits 0 to 9 pass.
\<close>

theorem Phone_init_accepts_superscripts:
  "length superscript_twos = 10
   \<and> list_all (\<lambda>c. \<not> is_decimal_char c) superscript_twos
   \<and> isdigit superscript_twos
   \<and> Phone_init superscript_twos = Inr (mk_Phone superscript_twos)
   \<and> Phone_str (mk_Phone superscript_twos) = superscript_twos"
  by (simp add: Phone_init_def isdigit_def is_digit_char_def is_decimal_char_def
      ascii_digits_def superscript_twos_def Phone_str_def)

text \<open>So \<^verbatim>\<open>add_phone\<close> stores it as a phone of the record.\<close>

theorem Phone_init_accepts_superscripts_witness:
  "add_phone example_record superscript_twos =
     (Inr (), example_record\<lparr>phones := phones example_record @ [mk_Phone superscript_twos]\<rparr>)"
  using Phone_init_accepts_superscripts by (simp add: add_phone_def)

subsection \<open>Editing a phone\<close>



subsection \<open>Failed mutations leave the record as it was\<close>

text \<open>
  Claim C9.  Whenever \<^verbatim>\<open>add_phone\<close>, \<^verbatim>\<open>edit_phone\<close> or \<^verbatim>\<open>remove_phone\<close> raises, the record
  (name, phones in order, birthday) at the end of the call is the record at its start.
\<close>

theorem failed_mutation_atomic:
  "(fst (add_phone r v) = Inl e \<longrightarrow> snd (add_phone r v) = r)
   \<and> (fst (edit_phone r old new) = Inl e \<longrightarrow> snd (edit_phone r old new) = r)
   \<and> (fst (remove_phone r v) = Inl e \<longrightarrow> snd (remove_phone r v) = r)"
  by (auto simp: add_phone_def edit_phone_def remove_phone_def
      split: sum.splits option.splits)

theorem failed_mutation_atomic_witness:
  "snd (add_phone example_record ''12'') = example_record
   \<and> snd (edit_phone example_record ''9999999999'' ''0000000000'') = example_record
   \<and> snd (edit_phone example_record ''2222222222'' ''12'') = example_record
   \<and> snd (remove_phone example_record ''12'') = example_record"
proof -
  have short: "Phone_init ''12'' = Inl (ValueError (Phone_format ''12''))"
    by (simp add: Phone_init_def)
  have a: "fst (add_phone example_record ''12'') = Inl (ValueError (Phone_format ''12''))"
    by (simp add: add_phone_def short)
  have b: "fst (edit_phone example_record ''9999999999'' ''0000000000'') =
      Inl (ValueError (Phone_not_found ''9999999999'' ''Ann''))"
    by (simp add: edit_phone_def find_phone_def example_record_def)
  have c: "fst (edit_phone example_record ''2222222222'' ''12'') =
      Inl (ValueError (Phone_format ''12''))"
    by (simp add: edit_phone_def find_phone_def example_record_def short)
  have d: "fst (remove_phone example_record ''12'') =
      Inl (ValueError (Phone_not_found ''12'' ''Ann''))"
    by (simp add: remove_phone_def find_phone_def example_record_def)
  from a b c d
    failed_mutation_atomic[of example_record "''12''" "ValueError (Phone_format ''12'')"
      "''2222222222''" "''12''"]
    failed_mutation_atomic[of example_record "''12''"
      "ValueError (Phone_not_found ''9999999999'' ''Ann'')" "''9999999999''" "''0000000000''"]
    failed_mutation_atomic[of example_record "''12''"
      "ValueError (Phone_not_found ''12'' ''Ann'')" "''9999999999''" "''0000000000''"]
  show ?thesis by blast
qed

section \<open>Properties of AddressBook\<close>

lemma map_of_add_record:
  "map_of (add_record book r) = (map_of book)(Name_value (name r) \<mapsto> r)"
  by (simp add: add_record_def update_conv')

lemma distinct_add_record:
  "distinct (map fst book) \<Longrightarrow> distinct (map fst (add_record book r))"
  by (simp add: add_record_def distinct_update)

lemma map_of_foldl_add_record:
  "map_of (foldl add_record book rs) k =
     (case filter (\<lambda>r. Name_value (name r) = k) rs of
        [] \<Rightarrow> map_of book k
      | r # rest \<Rightarrow> Some (last (r # rest)))"
proof (induction rs arbitrary: book)
  case Nil
  then show ?case by simp
next
  case (Cons a rs)
  show ?case
    by (simp add: Cons.IH map_of_add_record split: list.splits)
qed

lemma distinct_foldl_add_record:
  "distinct (map fst book) \<Longrightarrow> distinct (map fst (foldl add_record book rs))"
  by (induction rs arbitrary: book) (simp_all add: distinct_add_record)

lemma keys_foldl_add_record:
  "\<forall>(k, r) \<in> set book. k = Name_value (name r) \<Longrightarrow>
   \<forall>(k, r) \<in> set (foldl add_record book rs). k = Name_value (name r)"
proof (induction rs arbitrary: book)
  case Nil
  then show ?case by simp
next
  case (Cons a rs)
  have "set (AList.update k v al) \<subseteq> insert (k, v) (set al)" for k :: string and v :: Record and al
    by (induction al) auto
  then have "\<forall>(k, r) \<in> set (add_record book a). k = Name_value (name r)"
    using Cons.prems unfolding add_record_def by fastforce
  from Cons.IH[OF this] show ?case by simp
qed

subsection \<open>Adding records\<close>

text \<open>
  Claim C8.  \<^verbatim>\<open>add_record\<close> stores the record under its own name.  Over any sequence of
  \<^verbatim>\<open>add_record\<close> calls the keys of the book stay pairwise distinct, \<^verbatim>\<open>find\<close> of a name
  that was added returns the record added last under that name, and in a book built from
  the empty one every record is stored under its own name.
\<close>

theorem add_record_spec:
  "find_record (add_record book r) (Name_value (name r)) = Some r
   \<and> (distinct (map fst book) \<longrightarrow>
        distinct (map fst (foldl add_record book rs))
        \<and> (\<forall>r \<in> set rs. find_record (foldl add_record book rs) (Name_value (name r)) =
              Some (last (filter (\<lambda>r'. Name_value (name r') = Name_value (name r)) rs))))
   \<and> (\<forall>(k, r') \<in> set (foldl add_record [] rs). k = Name_value (name r'))"
proof (intro conjI impI ballI)
  show "find_record (add_record book r) (Name_value (name r)) = Some r"
    by (simp add: find_record_def map_of_add_record)
next
  assume "distinct (map fst book)"
  then show "distinct (map fst (foldl add_record book rs))"
    by (rule distinct_foldl_add_record)
next
  fix r' assume "r' \<in> set rs"
  then have "filter (\<lambda>x. Name_value (name x) = Name_value (name r')) rs \<noteq> []"
    by (auto simp: filter_empty_conv)
  then show "find_record (foldl add_record book rs) (Name_value (name r')) =
      Some (last (filter (\<lambda>x. Name_value (name x) = Name_value (name r')) rs))"
    by (auto simp: find_record_def map_of_foldl_add_record split: list.splits)
next
  fix x assume "x \<in> set (foldl add_record [] rs)"
  moreover have "\<forall>(k, r) \<in> set (foldl add_record [] rs). k = Name_value (name r)"
    by (rule keys_foldl_add_record) simp
  ultimately show "case x of (k, r') \<Rightarrow> k = Name_value (name r')" by blast
qed

theorem add_record_spec_witness:
  "distinct (map fst (foldl add_record [] [example_record, Record_init ''Bob'', Record_init ''Ann'']))
   \<and> find_record (foldl add_record [] [example_record, Record_init ''Bob'', Record_init ''Ann'']) ''Ann''
       = Some (Record_init ''Ann'')
   \<and> find_record (foldl add_record [] [example_record, Record_init ''Bob'', Record_init ''Ann'']) ''Bob''
       = Some (Record_init ''Bob'')
   \<and> (''Ann'', Record_init ''Ann'')
       \<in> set (foldl add_record [] [example_record, Record_init ''Bob'', Record_init ''Ann''])
   \<and> ''Ann'' = Name_value (name (Record_init ''Ann''))"
proof -
  let ?rs = "[example_record, Record_init ''Bob'', Record_init ''Ann'']"
  have d: "distinct (map fst ([] :: AddressBook))" by simp
  have n1: "Name_value (name example_record) = ''Ann''" by (simp add: example_record_def)
  have n2: "Name_value (name (Record_init ''Bob'')) = ''Bob''" by (simp add: Record_init_def)
  have n3: "Name_value (name (Record_init ''Ann'')) = ''Ann''" by (simp add: Record_init_def)
  have m1: "Record_init ''Ann'' \<in> set ?rs" by simp
  have m2: "Record_init ''Bob'' \<in> set ?rs" by simp
  from add_record_spec[of "[]" example_record ?rs] d
  have dist: "distinct (map fst (foldl add_record [] ?rs))"
    and all: "\<forall>r \<in> set ?rs. find_record (foldl add_record [] ?rs) (Name_value (name r)) =
              Some (last (filter (\<lambda>r'. Name_value (name r') = Name_value (name r)) ?rs))"
    by blast+
  from all m1 have "find_record (foldl add_record [] ?rs) (Name_value (name (Record_init ''Ann''))) =
      Some (last (filter (\<lambda>r'. Name_value (name r') = Name_value (name (Record_init ''Ann''))) ?rs))"
    by blast
  then have a: "find_record (foldl add_record [] ?rs) ''Ann'' = Some (Record_init ''Ann'')"
    by (simp add: n1 n2 n3)
  from all m2 have "find_record (foldl add_record [] ?rs) (Name_value (name (Record_init ''Bob''))) =
      Some (last (filter (\<lambda>r'. Name_value (name r') = Name_value (name (Record_init ''Bob''))) ?rs))"
    by blast
  then have b: "find_record (foldl add_record [] ?rs) ''Bob'' = Some (Record_init ''Bob'')"
    by (simp add: n1 n2 n3)
  have mem: "(''Ann'', Record_init ''Ann'') \<in> set (foldl add_record [] ?rs)"
    by (simp add: add_record_def n1 n2 n3)
  from add_record_spec[of "[]" example_record ?rs]
  have "\<forall>(k, r') \<in> set (foldl add_record [] ?rs). k = Name_value (name r')" by blast
  with mem have c: "''Ann'' = Name_value (name (Record_init ''Ann''))" by blast
  from dist a b mem c show ?thesis by blast
qed

section \<open>Properties of calendar dates\<close>

subsection \<open>Ordinals\<close>








section \<open>Properties of rendering and parsing\<close>

subsection \<open>Decimal digits\<close>

lemma digit_char_cases:
  assumes "(k::nat) < 10"
  obtains "k = 0" | "k = 1" | "k = 2" | "k = 3" | "k = 4" | "k = 5" | "k = 6" | "k = 7"
    | "k = 8" | "k = 9"
proof -
  from assms have "k = 0 \<or> k = 1 \<or> k = 2 \<or> k = 3 \<or> k = 4 \<or> k = 5 \<or> k = 6 \<or> k = 7
      \<or> k = 8 \<or> k = 9"
    by arith
  then show ?thesis using that by blast
qed

lemma digit_char_props:
  assumes "k < 10"
  shows "is_decimal_char (digit_char k)" "code_points [digit_char k] = [48 + k]"
    "(digit_char k = CHR ''0'') = (k = 0)"
  using assms
  by (cases k rule: digit_char_cases;
      simp add: is_decimal_char_def digit_char_def code_points_def ascii_digits_def)+

lemma decimal_1: "n < 10 \<Longrightarrow> decimal n = [digit_char n]"
  by (simp add: decimal.simps)

lemma decimal_2: "10 \<le> n \<Longrightarrow> n < 100 \<Longrightarrow> decimal n = [digit_char (n div 10), digit_char (n mod 10)]"
  by (subst decimal.simps) (simp add: decimal_1)

lemma decimal_3:
  assumes "100 \<le> n" "n < 1000"
  shows "decimal n = [digit_char (n div 100), digit_char (n div 10 mod 10), digit_char (n mod 10)]"
proof -
  have a: "10 \<le> n div 10" "n div 10 < 100" using assms by simp_all
  have b: "n div 10 div 10 = n div 100" by (simp add: div_mult2_eq[symmetric])
  have "decimal n = decimal (n div 10) @ [digit_char (n mod 10)]"
    using assms by (subst decimal.simps) simp
  then show ?thesis using decimal_2[OF a] b by simp
qed

lemma decimal_4:
  assumes "1000 \<le> n" "n < 10000"
  shows "decimal n = [digit_char (n div 1000), digit_char (n div 100 mod 10),
                  digit_char (n div 10 mod 10), digit_char (n mod 10)]"
proof -
  have a: "100 \<le> n div 10" "n div 10 < 1000" using assms by simp_all
  have b: "n div 10 div 100 = n div 1000" "n div 10 div 10 = n div 100"
    by (simp_all add: div_mult2_eq[symmetric])
  have "decimal n = decimal (n div 10) @ [digit_char (n mod 10)]"
    using assms by (subst decimal.simps) simp
  then show ?thesis using decimal_3[OF a] b by simp
qed

lemma digit_char_0: "digit_char 0 = CHR ''0''"
  by (simp add: digit_char_def ascii_digits_def)

lemma zfill2:
  assumes "n < 100"
  shows "zfill 2 (decimal n) = [digit_char (n div 10), digit_char (n mod 10)]"
proof (cases "n < 10")
  case True
  then show ?thesis by (simp add: zfill_def decimal_1 digit_char_0)
next
  case False
  with assms show ?thesis by (simp add: zfill_def decimal_2)
qed

lemma zfill4:
  assumes "n < 10000"
  shows "zfill 4 (decimal n) = [digit_char (n div 1000), digit_char (n div 100 mod 10),
                  digit_char (n div 10 mod 10), digit_char (n mod 10)]"
proof -
  have r3: "replicate 3 c = [c, c, c]" for c :: char by (simp add: numeral_3_eq_3)
  have r2: "replicate 2 c = [c, c]" for c :: char by (simp add: numeral_2_eq_2)
  consider "n < 10" | "10 \<le> n" "n < 100" | "100 \<le> n" "n < 1000" | "1000 \<le> n"
    by linarith
  then show ?thesis
  proof cases
    case 1
    then show ?thesis by (simp add: zfill_def decimal_1 digit_char_0 r3)
  next
    case 2
    then show ?thesis by (simp add: zfill_def decimal_2 digit_char_0 r2)
  next
    case 3
    then show ?thesis by (simp add: zfill_def decimal_3 digit_char_0)
  next
    case 4
    with assms show ?thesis by (simp add: zfill_def decimal_4)
  qed
qed

text \<open>The decimal digits of Unicode below code point 128 are the ten digits of ASCII.\<close>

lemma find_holds: "find P xs = Some x \<Longrightarrow> P x"
  by (auto simp: find_Some_iff)

lemma decimal_value_ascii:
  "c < 128 \<Longrightarrow> decimal_value zeros c = (if 48 \<le> c \<and> c \<le> 57 then Some (c - 48) else None)"
  by (auto simp: decimal_value_def split: option.splits dest!: find_holds)

lemma is_decimal_ascii: "c < 128 \<Longrightarrow> is_decimal zeros c = (48 \<le> c \<and> c \<le> 57)"
  by (simp add: is_decimal_def decimal_value_ascii)


lemma decimal_value_digit: "k < 10 \<Longrightarrow> decimal_value zeros (48 + k) = Some k"
  by (simp add: decimal_value_def)

lemma is_decimal_digit: "k < 10 \<Longrightarrow> is_decimal zeros (48 + k)"
  by (simp add: is_decimal_def decimal_value_digit)


lemma is_decimal_not_dot_blank: "is_decimal zeros c \<Longrightarrow> c \<noteq> 46 \<and> c \<noteq> 32"
  using is_decimal_ascii[of c zeros] by (cases "c < 128") auto

lemma code_points_dot: "code_points ''.'' = [46]"
  by (simp add: code_points_def)

lemma code_points_append: "code_points (a @ b) = code_points a @ code_points b"
  by (simp add: code_points_def)

lemma code_points_zfill2:
  assumes "n < 100"
  shows "code_points (zfill 2 (decimal n)) = [48 + n div 10, 48 + n mod 10]"
proof -
  have lt: "n div 10 < 10" "n mod 10 < 10" using assms by simp_all
  have "code_points (zfill 2 (decimal n)) =
      code_points [digit_char (n div 10)] @ code_points [digit_char (n mod 10)]"
    unfolding zfill2[OF assms] by (simp add: code_points_def)
  then show ?thesis by (simp add: digit_char_props(2)[OF lt(1)] digit_char_props(2)[OF lt(2)])
qed

lemma code_points_zfill4:
  assumes "n < 10000"
  shows "code_points (zfill 4 (decimal n)) =
     [48 + n div 1000, 48 + n div 100 mod 10, 48 + n div 10 mod 10, 48 + n mod 10]"
proof -
  have lt: "n div 1000 < 10" "n div 100 mod 10 < 10" "n div 10 mod 10 < 10" "n mod 10 < 10"
    using assms by simp_all
  have "code_points (zfill 4 (decimal n)) =
      code_points [digit_char (n div 1000)] @ code_points [digit_char (n div 100 mod 10)] @
      code_points [digit_char (n div 10 mod 10)] @ code_points [digit_char (n mod 10)]"
    unfolding zfill4[OF assms] by (simp add: code_points_def)
  then show ?thesis
    by (simp add: digit_char_props(2)[OF lt(1)] digit_char_props(2)[OF lt(2)]
        digit_char_props(2)[OF lt(3)] digit_char_props(2)[OF lt(4)])
qed

subsection \<open>The regular expression of the format\<close>




lemma all_day_texts_eq:
  "all_day_texts =
    [''01'', ''1'', '' 1'', ''02'', ''2'', '' 2'', ''03'', ''3'', '' 3'', ''04'', ''4'', '' 4'',
     ''05'', ''5'', '' 5'', ''06'', ''6'', '' 6'', ''07'', ''7'', '' 7'', ''08'', ''8'', '' 8'',
     ''09'', ''9'', '' 9'', ''10'', ''11'', ''12'', ''13'', ''14'', ''15'', ''16'', ''17'', ''18'',
     ''19'', ''20'', ''21'', ''22'', ''23'', ''24'', ''25'', ''26'', ''27'', ''28'', ''29'', ''30'',
     ''31'']"
  by (simp add: all_day_texts_def day_texts_def zfill_def decimal_1 decimal_2
      digit_char_def ascii_digits_def)

lemma all_month_texts_eq:
  "all_month_texts =
    [''01'', ''1'', ''02'', ''2'', ''03'', ''3'', ''04'', ''4'', ''05'', ''5'', ''06'', ''6'',
     ''07'', ''7'', ''08'', ''8'', ''09'', ''9'', ''10'', ''11'', ''12'']"
  by (simp add: all_month_texts_def month_texts_def zfill_def decimal_1 decimal_2
      digit_char_def ascii_digits_def)

text \<open>
  The texts that group d matches: the ASCII texts of the days, and a \<^verbatim>\<open>1\<close> or a \<^verbatim>\<open>2\<close>
  followed by any decimal digit.  After each of them, followed by a dot, the expression
  goes on in one way only.
\<close>

lemma group_d_complete_ascii:
  "\<forall>D \<in> set all_day_texts.
     concat (map (\<lambda>(d, r1). concat (map (\<lambda>(x1, r2). F d r2) (re_dot r1)))
       (group_d zeros (code_points D @ 46 # t))) = F (code_points D) t"
  unfolding all_day_texts_eq
  by (simp add: group_d_def re_alt_def re_seq_def re_char_def one_of_def code_points_def
      is_decimal_ascii re_dot_def)

lemma group_d_complete_decimal:
  assumes "a = 49 \<or> a = 50" "is_decimal zeros c"
  shows "concat (map (\<lambda>(d, r1). concat (map (\<lambda>(x1, r2). F d r2) (re_dot r1)))
       (group_d zeros ([a, c] @ 46 # t))) = F [a, c] t"
  using assms is_decimal_not_dot_blank[OF assms(2)]
  by (auto simp: group_d_def re_alt_def re_seq_def re_char_def one_of_def code_points_def
      re_dot_def)

lemma group_d_complete:
  assumes "D \<in> set (map code_points all_day_texts)
     \<or> (\<exists>a c. D = [a, c] \<and> (a = 49 \<or> a = 50) \<and> is_decimal zeros c)"
  shows "concat (map (\<lambda>(d, r1). concat (map (\<lambda>(x1, r2). F d r2) (re_dot r1)))
       (group_d zeros (D @ 46 # t))) = F D t"
  using assms group_d_complete_ascii[of F zeros t] group_d_complete_decimal[of _ zeros _ F t]
  by auto

lemma group_m_complete:
  "\<forall>M \<in> set all_month_texts.
     concat (map (\<lambda>(m, r3). concat (map (\<lambda>(x2, r4). F m r4) (re_dot r3)))
       (group_m (code_points M @ 46 # t))) = F (code_points M) t"
  unfolding all_month_texts_eq
  by (simp add: group_m_def re_alt_def re_seq_def re_char_def one_of_def code_points_def
      re_dot_def)

lemma group_Y_complete:
  "list_all (is_decimal zeros) [a, b, c, d] \<Longrightarrow>
     group_Y zeros ([a, b, c, d] @ t) = [([a, b, c, d], t)]"
  by (simp add: group_Y_def re_seq_def re_char_def)

lemma format_regex_matches_complete:
  assumes "D \<in> set (map code_points all_day_texts)
     \<or> (\<exists>a c. D = [a, c] \<and> (a = 49 \<or> a = 50) \<and> is_decimal zeros c)"
    and "M \<in> set (map code_points all_month_texts)"
    and "list_all (is_decimal zeros) [a, b, c, d]"
  shows "format_regex_matches zeros (D @ 46 # M @ 46 # [a, b, c, d] @ t) = [(D, M, [a, b, c, d], t)]"
proof -
  from assms(2) obtain M' where M': "M' \<in> set all_month_texts" "M = code_points M'" by auto
  have "format_regex_matches zeros (D @ 46 # M @ 46 # [a, b, c, d] @ t) =
     concat (map (\<lambda>(m, r3). concat (map (\<lambda>(x2, r4). map (\<lambda>(y, r5). (D, m, y, r5)) (group_Y zeros r4))
        (re_dot r3))) (group_m (M @ 46 # [a, b, c, d] @ t)))"
    unfolding format_regex_matches_def
    by (rule group_d_complete[OF assms(1)])
  also have "\<dots> = map (\<lambda>(y, r5). (D, M, y, r5)) (group_Y zeros ([a, b, c, d] @ t))"
    unfolding M'(2)
    using group_m_complete[rule_format, OF M'(1), where t = "[a, b, c, d] @ t"] by simp
  also have "\<dots> = [(D, M, [a, b, c, d], t)]"
    using group_Y_complete[OF assms(3)] by simp
  finally show ?thesis .
qed






subsection \<open>The numbers of the groups\<close>



lemma day_texts_py_int:
  "\<forall>n \<in> set [1, 2, 3, 4, 5, 6, 7, 8, 9, 10, 11, 12, 13, 14, 15, 16, 17, 18, 19, 20,
      21, 22, 23, 24, 25, 26, 27, 28, 29, 30, 31].
     \<forall>D \<in> set (day_texts n). py_int zeros (code_points D) = n"
  by (simp add: py_int_def digits_number_def one_of_def code_points_def decimal_value_ascii
      day_texts_def zfill_def decimal_1 decimal_2 digit_char_def ascii_digits_def)

lemma month_texts_py_int:
  "\<forall>n \<in> set [1, 2, 3, 4, 5, 6, 7, 8, 9, 10, 11, 12].
     \<forall>M \<in> set (month_texts n). py_int zeros (code_points M) = n"
  by (simp add: py_int_def digits_number_def one_of_def code_points_def decimal_value_ascii
      month_texts_def zfill_def decimal_1 decimal_2 digit_char_def ascii_digits_def)

lemma nat_in_1_12:
  assumes "1 \<le> (mo::nat)" "mo \<le> 12"
  shows "mo \<in> set [1, 2, 3, 4, 5, 6, 7, 8, 9, 10, 11, 12]"
proof -
  from assms have "mo = 1 \<or> mo = 2 \<or> mo = 3 \<or> mo = 4 \<or> mo = 5 \<or> mo = 6 \<or> mo = 7 \<or> mo = 8 \<or> mo = 9
     \<or> mo = 10 \<or> mo = 11 \<or> mo = 12" by arith
  then show ?thesis by auto
qed

lemma nat_in_1_31:
  assumes "1 \<le> (dy::nat)" "dy \<le> 31"
  shows "dy \<in> set [1, 2, 3, 4, 5, 6, 7, 8, 9, 10, 11, 12, 13, 14, 15, 16, 17, 18, 19, 20,
      21, 22, 23, 24, 25, 26, 27, 28, 29, 30, 31]"
proof -
  consider "dy \<le> 12" | "13 \<le> dy" "dy \<le> 22" | "23 \<le> dy" by linarith
  then show ?thesis
  proof cases
    case 1
    with assms(1) have "dy \<in> set [1, 2, 3, 4, 5, 6, 7, 8, 9, 10, 11, 12]" by (rule nat_in_1_12)
    then show ?thesis by auto
  next
    case 2
    then have "dy = 13 \<or> dy = 14 \<or> dy = 15 \<or> dy = 16 \<or> dy = 17 \<or> dy = 18 \<or> dy = 19 \<or> dy = 20
     \<or> dy = 21 \<or> dy = 22" by arith
    then show ?thesis by auto
  next
    case 3
    with assms(2) have "dy = 23 \<or> dy = 24 \<or> dy = 25 \<or> dy = 26 \<or> dy = 27 \<or> dy = 28 \<or> dy = 29 \<or> dy = 30
     \<or> dy = 31" by arith
    then show ?thesis by auto
  qed
qed

text \<open>A \<^verbatim>\<open>1\<close> or a \<^verbatim>\<open>2\<close> followed by a decimal digit of value \<open>v\<close> is the day 10 + v or 20 + v.\<close>

lemma py_int_tens:
  assumes a: "a = 49 \<or> a = 50" and c: "decimal_value zeros c = Some v"
  shows "py_int zeros [a, c] = 10 * (a - 48) + v"
  using a c by (auto simp: py_int_def digits_number_def one_of_def code_points_def
      decimal_value_ascii)


lemma code_points_decimal_12:
  "code_points (decimal 1) = [49]" "code_points (decimal 2) = [50]"
  "code_points (decimal (Suc 0)) = [49]"
  by (simp_all add: decimal_1 digit_char_def ascii_digits_def code_points_def)



lemma is_day_text_form:
  assumes n: "1 \<le> n" "n \<le> 31" and t: "is_day_text zeros n D"
  shows "py_int zeros D = n"
    and "D \<in> set (map code_points all_day_texts)
     \<or> (\<exists>a c. D = [a, c] \<and> (a = 49 \<or> a = 50) \<and> is_decimal zeros c)"
proof -
  note mem = nat_in_1_31[OF n]
  from t consider
    (ascii) "D \<in> set (map code_points (day_texts n))"
    | (tens) a c where "10 \<le> n" "n \<le> 29" "D = [a, c]" "[a] = code_points (decimal (n div 10))"
        "decimal_value zeros c = Some (n mod 10)"
    by (auto simp: is_day_text_def split: list.splits)
  then have "py_int zeros D = n \<and> (D \<in> set (map code_points all_day_texts)
     \<or> (\<exists>a c. D = [a, c] \<and> (a = 49 \<or> a = 50) \<and> is_decimal zeros c))"
  proof cases
    case ascii
    then obtain D' where D': "D' \<in> set (day_texts n)" "D = code_points D'" by auto
    from D'(1) mem have "D' \<in> set all_day_texts"
      unfolding all_day_texts_def set_concat set_map by blast
    moreover from day_texts_py_int[of zeros] mem D'(1) have "py_int zeros (code_points D') = n"
      by blast
    ultimately show ?thesis unfolding D'(2) by auto
  next
    case tens
    from tens(1,2) have "n div 10 = 1 \<or> n div 10 = 2" by arith
    with tens(4) have a: "a = 49 \<or> a = 50" by (auto simp: code_points_decimal_12)
    have dec: "is_decimal zeros c" using tens(5) by (simp add: is_decimal_def)
    from tens(1,2,4) have "10 * (a - 48) = 10 * (n div 10)"
      using \<open>n div 10 = 1 \<or> n div 10 = 2\<close> by (auto simp: code_points_decimal_12)
    then have "py_int zeros [a, c] = n"
      unfolding py_int_tens[OF a tens(5)] by simp
    with a dec show ?thesis unfolding tens(3) by blast
  qed
  then show "py_int zeros D = n"
    and "D \<in> set (map code_points all_day_texts)
     \<or> (\<exists>a c. D = [a, c] \<and> (a = 49 \<or> a = 50) \<and> is_decimal zeros c)"
    by blast+
qed

lemma is_month_text_form:
  assumes n: "1 \<le> n" "n \<le> 12" and t: "is_month_text n M"
  shows "py_int zeros M = n" and "M \<in> set (map code_points all_month_texts)"
proof -
  note mem = nat_in_1_12[OF n]
  from t obtain M' where M': "M' \<in> set (month_texts n)" "M = code_points M'"
    by (auto simp: is_month_text_def)
  from M'(1) mem have "M' \<in> set all_month_texts"
    unfolding all_month_texts_def set_concat set_map by blast
  then show "M \<in> set (map code_points all_month_texts)" unfolding M'(2) by simp
  from month_texts_py_int[of zeros] mem M'(1) show "py_int zeros M = n" unfolding M'(2) by blast
qed


text \<open>Four decimal digits are read as the number that they denote.\<close>

lemma py_int_year:
  assumes "list_all (is_decimal zeros) [a, b, c, d]"
  shows "py_int zeros [a, b, c, d] = digits_number zeros [a, b, c, d]"
    and "is_year_text zeros (py_int zeros [a, b, c, d]) [a, b, c, d]"
    and "46 \<notin> set [a, b, c, d]"
proof -
  from assms have "is_decimal zeros a" by simp
  then have "\<not> one_of '' '' a"
    by (auto simp: one_of_def code_points_def dest: is_decimal_not_dot_blank)
  then show e: "py_int zeros [a, b, c, d] = digits_number zeros [a, b, c, d]"
    by (simp add: py_int_def)
  from assms show "is_year_text zeros (py_int zeros [a, b, c, d]) [a, b, c, d]"
    unfolding e by (simp add: is_year_text_def)
  from assms show "46 \<notin> set [a, b, c, d]"
    by (auto dest: is_decimal_not_dot_blank)
qed

lemma is_year_text_form:
  assumes "is_year_text zeros y Y"
  shows "\<exists>a b c d. Y = [a, b, c, d] \<and> list_all (is_decimal zeros) [a, b, c, d]
     \<and> py_int zeros [a, b, c, d] = y"
proof -
  from assms have l: "length Y = 4" and dec: "list_all (is_decimal zeros) Y"
    and n: "digits_number zeros Y = y"
    by (simp_all add: is_year_text_def)
  from l obtain a b c d where Y: "Y = [a, b, c, d]"
    by (auto simp: length_Suc_conv numeral_eq_Suc)
  from py_int_year(1)[OF dec[unfolded Y]] n dec show ?thesis unfolding Y by blast
qed

lemma digits4_value:
  fixes y :: nat
  shows "1000 * (y div 1000) + 100 * (y div 100 mod 10) + 10 * (y div 10 mod 10) + y mod 10 = y"
proof -
  have a: "y = 10 * (y div 10) + y mod 10" by simp
  have b: "y div 10 = 10 * (y div 100) + y div 10 mod 10"
    using div_mult_mod_eq[of "y div 10" 10] by (simp add: div_mult2_eq[symmetric])
  have c: "y div 100 = 10 * (y div 1000) + y div 100 mod 10"
    using div_mult_mod_eq[of "y div 100" 10] by (simp add: div_mult2_eq[symmetric])
  from a b c show ?thesis by linarith
qed

lemma is_year_text_zfill4:
  assumes "y < 10000"
  shows "is_year_text zeros y (code_points (zfill 4 (decimal y)))"
    and "46 \<notin> set (code_points (zfill 4 (decimal y)))"
proof -
  have lt: "y div 1000 < 10" "y div 100 mod 10 < 10" "y div 10 mod 10 < 10" "y mod 10 < 10"
    using assms by simp_all
  have "digits_number zeros
      [48 + y div 1000, 48 + y div 100 mod 10, 48 + y div 10 mod 10, 48 + y mod 10] =
      1000 * (y div 1000) + 100 * (y div 100 mod 10) + 10 * (y div 10 mod 10) + y mod 10"
    by (simp add: digits_number_def decimal_value_digit[OF lt(1)] decimal_value_digit[OF lt(2)]
        decimal_value_digit[OF lt(3)] decimal_value_digit[OF lt(4)])
  then have "digits_number zeros
      [48 + y div 1000, 48 + y div 100 mod 10, 48 + y div 10 mod 10, 48 + y mod 10] = y"
    unfolding digits4_value .
  then show "is_year_text zeros y (code_points (zfill 4 (decimal y)))"
    unfolding code_points_zfill4[OF assms] is_year_text_def
    using lt by (simp add: is_decimal_digit)
  show "46 \<notin> set (code_points (zfill 4 (decimal y)))"
    unfolding code_points_zfill4[OF assms] by simp
qed

subsection \<open>The fields of a text\<close>

lemma split_on_not_Nil: "split_on sep s \<noteq> []"
  by (induction s) (auto split: list.splits)

lemma split_on_no_sep: "sep \<notin> set s \<Longrightarrow> split_on sep s = [s]"
  by (induction s) auto

lemma split_on_append: "sep \<notin> set D \<Longrightarrow> split_on sep (D @ sep # r) = D # split_on sep r"
  by (induction D) (auto split: list.splits)

lemma split_on_fields:
  assumes "sep \<notin> set D" "sep \<notin> set M" "sep \<notin> set Y"
  shows "split_on sep (D @ sep # M @ sep # Y) = [D, M, Y]"
  by (simp add: split_on_append[OF assms(1)] split_on_append[OF assms(2)]
      split_on_no_sep[OF assms(3)])

lemma split_on_Cons:
  "split_on sep s = f # fs \<Longrightarrow>
     (fs = [] \<longrightarrow> s = f) \<and> (fs \<noteq> [] \<longrightarrow> (\<exists>r. s = f @ sep # r \<and> split_on sep r = fs))"
proof (induction s arbitrary: f fs)
  case Nil
  then show ?case by simp
next
  case (Cons c cs)
  show ?case
  proof (cases "c = sep")
    case True
    with Cons.prems have "f = []" "fs = split_on sep cs" by simp_all
    with True show ?thesis by (simp add: split_on_not_Nil)
  next
    case False
    from split_on_not_Nil[of sep cs] obtain g gs where g: "split_on sep cs = g # gs"
      by (cases "split_on sep cs") auto
    with False Cons.prems have e: "f = c # g" "fs = gs" by simp_all
    from Cons.IH[OF g] e show ?thesis by auto
  qed
qed

lemma split_on_three:
  assumes "split_on sep s = [D, M, Y]"
  shows "s = D @ sep # M @ sep # Y"
proof -
  from split_on_Cons[OF assms] obtain r where r: "s = D @ sep # r" "split_on sep r = [M, Y]"
    by auto
  from split_on_Cons[OF r(2)] obtain r' where r': "r = M @ sep # r'" "split_on sep r' = [Y]"
    by auto
  from split_on_Cons[OF r'(2)] have "r' = Y" by simp
  with r(1) r'(1) show ?thesis by simp
qed

lemma accepted_text_fields:
  assumes "accepted_text zeros dt s"
  shows "\<exists>D M Y. s = D @ 46 # M @ 46 # Y \<and> is_day_text zeros (day dt) D
     \<and> is_month_text (month dt) M \<and> is_year_text zeros (year dt) Y"
proof -
  from assms obtain D M Y where f: "split_on 46 s = [D, M, Y]"
    and t: "is_day_text zeros (day dt) D" "is_month_text (month dt) M"
      "is_year_text zeros (year dt) Y"
    by (auto simp: accepted_text_def split: list.splits)
  from split_on_three[OF f] t show ?thesis by blast
qed

lemma accepted_text_intro:
  assumes "46 \<notin> set D" "46 \<notin> set M" "46 \<notin> set Y"
    and "is_day_text zeros (day dt) D" "is_month_text (month dt) M"
    and "is_year_text zeros (year dt) Y"
  shows "accepted_text zeros dt (D @ 46 # M @ 46 # Y)"
  using assms(4-6) by (simp add: accepted_text_def split_on_fields[OF assms(1-3)])

subsection \<open>What \<^verbatim>\<open>strptime\<close> accepts\<close>

lemma days_in_month_le_31:
  assumes "1 \<le> m" "m \<le> 12"
  shows "days_in_month y m \<le> 31"
  using nat_in_1_12[OF assms] by (auto simp: days_in_month_def DAYS_IN_MONTH_def)

lemma valid_date_bounds:
  assumes "valid_date dt"
  shows "1 \<le> day dt" "day dt \<le> 31" "1 \<le> month dt" "month dt \<le> 12" "1 \<le> year dt"
    "year dt < 10000"
proof -
  from assms show m: "1 \<le> month dt" "month dt \<le> 12" and "1 \<le> day dt" "1 \<le> year dt"
    "year dt < 10000"
    by (simp_all add: valid_date_def MINYEAR_def MAXYEAR_def)
  from assms days_in_month_le_31[OF m, of "year dt"] show "day dt \<le> 31"
    by (simp add: valid_date_def)
qed

lemma date_new_Inr: "(date_new y m d = Inr dt) = (dt = \<lparr>year = y, month = m, day = d\<rparr> \<and> valid_date dt)"
  by (auto simp: date_new_def valid_date_def)


lemma strptime_accepted:
  assumes v: "valid_date dt" and s: "accepted_text zeros dt s"
  shows "strptime_dmY zeros s = Inr dt"
proof -
  note b = valid_date_bounds[OF v]
  from accepted_text_fields[OF s] obtain D M Y where
    s: "s = D @ 46 # M @ 46 # Y" and D: "is_day_text zeros (day dt) D"
    and M: "is_month_text (month dt) M" and Y: "is_year_text zeros (year dt) Y"
    by blast
  note d = is_day_text_form[OF b(1,2) D]
  note m = is_month_text_form[OF b(3,4) M]
  from is_year_text_form[OF Y] obtain a b c d where
    Y': "Y = [a, b, c, d]" and dec: "list_all (is_decimal zeros) [a, b, c, d]"
    and y: "py_int zeros [a, b, c, d] = year dt"
    by blast
  have "format_regex_matches zeros (D @ 46 # M @ 46 # [a, b, c, d] @ []) = [(D, M, [a, b, c, d], [])]"
    using d(2) m(2) dec by (rule format_regex_matches_complete)
  then have "format_regex_matches zeros s = [(D, M, [a, b, c, d], [])]"
    by (simp add: s Y')
  then have "strptime_dmY zeros s = date_new (year dt) (month dt) (day dt)"
    by (simp add: strptime_dmY_def d(1) m(1) y)
  with v show ?thesis by (simp add: date_new_Inr)
qed



subsection \<open>The rendering of a date\<close>

lemma zfill4_four_digits:
  assumes "1000 \<le> n" "n < 10000"
  shows "zfill 4 (decimal n) = decimal n"
  unfolding zfill_def decimal_4[OF assms] by simp

lemma year_text:
  assumes "pad \<or> 1000 \<le> y" "y < 10000"
  shows "(if pad then zfill 4 (decimal y) else decimal y) = zfill 4 (decimal y)"
proof (cases pad)
  case True
  then show ?thesis by simp
next
  case False
  with assms have "zfill 4 (decimal y) = decimal y"
    by (intro zfill4_four_digits) simp_all
  with False show ?thesis by simp
qed

lemma strftime_padded:
  assumes "pad \<or> 1000 \<le> year dt" "year dt < 10000"
  shows "strftime_dmY pad dt =
      zfill 2 (decimal (day dt)) @ ''.'' @ zfill 2 (decimal (month dt)) @ ''.'' @
      zfill 4 (decimal (year dt))"
  unfolding strftime_dmY_def year_text[OF assms] ..


lemma strftime_accepted:
  assumes "valid_date dt" "pad \<or> 1000 \<le> year dt"
  shows "accepted_text zeros dt (code_points (strftime_dmY pad dt))"
proof -
  note b = valid_date_bounds[OF assms(1)]
  have d: "day dt < 100" and m: "month dt < 100" using b by simp_all
  let ?D = "code_points (zfill 2 (decimal (day dt)))"
  let ?M = "code_points (zfill 2 (decimal (month dt)))"
  let ?Y = "code_points (zfill 4 (decimal (year dt)))"
  have e: "code_points (strftime_dmY pad dt) = ?D @ 46 # ?M @ 46 # ?Y"
    unfolding strftime_padded[OF assms(2) b(6)]
    by (simp add: code_points_def)
  have "accepted_text zeros dt (?D @ 46 # ?M @ 46 # ?Y)"
  proof (rule accepted_text_intro)
    show "46 \<notin> set ?D" unfolding code_points_zfill2[OF d] by simp
    show "46 \<notin> set ?M" unfolding code_points_zfill2[OF m] by simp
    show "46 \<notin> set ?Y" by (rule is_year_text_zfill4(2)[OF b(6)])
    show "is_day_text zeros (day dt) ?D" by (simp add: is_day_text_def day_texts_def)
    show "is_month_text (month dt) ?M" by (simp add: is_month_text_def month_texts_def)
    show "is_year_text zeros (year dt) ?Y" by (rule is_year_text_zfill4(1)[OF b(6)])
  qed
  then show ?thesis unfolding e .
qed

subsection \<open>Birthday construction\<close>

text \<open>Rewrite rules that evaluate the parser and the renderer on a given text or date.\<close>

lemmas parse_eval = Birthday_init_def strptime_dmY_def format_regex_matches_def group_d_def
  group_m_def group_Y_def re_dot_def re_alt_def re_seq_def re_char_def one_of_def
  code_points_def py_int_def digits_number_def is_decimal_ascii decimal_value_ascii date_new_def
  MINYEAR_def MAXYEAR_def days_in_month_def DAYS_IN_MONTH_def is_leap_def


lemmas render_eval = strftime_dmY_def day_texts_def month_texts_def
  zfill_def decimal_1 decimal_2 decimal_3 decimal_4 digit_char_def ascii_digits_def





text \<open>
  Claim C7, as amended.  For every date \<open>d\<close> that exists and whose year is rendered with four
  digits (every year from 1000 on, and every year where the platform pads),
  \<^verbatim>\<open>Birthday\<close> of the rendering of \<open>d\<close> succeeds, the stored value is \<open>d\<close>, and the birthday
  renders as the same text.
\<close>

theorem Birthday_round_trip:
  assumes "valid_date d" "pad \<or> 1000 \<le> year d"
  shows "\<exists>b. Birthday_init zeros (code_points (strftime_dmY pad d)) = Inr b \<and> Birthday_value b = d
           \<and> Birthday_str pad b = strftime_dmY pad d"
proof -
  from assms have "accepted_text zeros d (code_points (strftime_dmY pad d))"
    by (rule strftime_accepted)
  with assms(1) have "strptime_dmY zeros (code_points (strftime_dmY pad d)) = Inr d"
    by (rule strptime_accepted)
  then have "Birthday_init zeros (code_points (strftime_dmY pad d)) = Inr (mk_Birthday d)"
    by (simp add: Birthday_init_def)
  then show ?thesis by (simp add: Birthday_str_def)
qed

theorem Birthday_round_trip_witness:
  "strftime_dmY False \<lparr>year = 2024, month = 2, day = 29\<rparr> = ''29.02.2024''
   \<and> Birthday_init unicode_14_zeros (code_points ''29.02.2024'') =
       Inr (mk_Birthday \<lparr>year = 2024, month = 2, day = 29\<rparr>)
   \<and> Birthday_str False (mk_Birthday \<lparr>year = 2024, month = 2, day = 29\<rparr>) = ''29.02.2024''
   \<and> strftime_dmY True \<lparr>year = 999, month = 1, day = 1\<rparr> = ''01.01.0999''
   \<and> Birthday_init unicode_14_zeros (code_points ''01.01.0999'') =
       Inr (mk_Birthday \<lparr>year = 999, month = 1, day = 1\<rparr>)
   \<and> Birthday_str True (mk_Birthday \<lparr>year = 999, month = 1, day = 1\<rparr>) = ''01.01.0999''"
proof -
  have v: "valid_date \<lparr>year = 2024, month = 2, day = 29\<rparr>"
    by (simp add: valid_date_def MINYEAR_def MAXYEAR_def days_in_month_def is_leap_def)
  have y: "False \<or> 1000 \<le> year \<lparr>year = 2024, month = 2, day = 29\<rparr>" by simp
  have r: "strftime_dmY False \<lparr>year = 2024, month = 2, day = 29\<rparr> = ''29.02.2024''"
    by (simp add: render_eval)
  from Birthday_round_trip[OF v y, of unicode_14_zeros] obtain b where
    "Birthday_init unicode_14_zeros
       (code_points (strftime_dmY False \<lparr>year = 2024, month = 2, day = 29\<rparr>)) = Inr b"
    "Birthday_value b = \<lparr>year = 2024, month = 2, day = 29\<rparr>"
    "Birthday_str False b = strftime_dmY False \<lparr>year = 2024, month = 2, day = 29\<rparr>" by blast
  moreover from this(2) have "b = mk_Birthday \<lparr>year = 2024, month = 2, day = 29\<rparr>"
    by (cases b) simp
  ultimately have one:
    "Birthday_init unicode_14_zeros (code_points ''29.02.2024'') =
       Inr (mk_Birthday \<lparr>year = 2024, month = 2, day = 29\<rparr>)
     \<and> Birthday_str False (mk_Birthday \<lparr>year = 2024, month = 2, day = 29\<rparr>) = ''29.02.2024''"
    unfolding r by simp
  have v': "valid_date \<lparr>year = 999, month = 1, day = 1\<rparr>"
    by (simp add: valid_date_def MINYEAR_def MAXYEAR_def days_in_month_def DAYS_IN_MONTH_def)
  have y': "True \<or> 1000 \<le> year \<lparr>year = 999, month = 1, day = 1\<rparr>" by simp
  have r': "strftime_dmY True \<lparr>year = 999, month = 1, day = 1\<rparr> = ''01.01.0999''"
    by (simp add: render_eval)
  from Birthday_round_trip[OF v' y', of unicode_14_zeros] obtain b' where
    "Birthday_init unicode_14_zeros
       (code_points (strftime_dmY True \<lparr>year = 999, month = 1, day = 1\<rparr>)) = Inr b'"
    "Birthday_value b' = \<lparr>year = 999, month = 1, day = 1\<rparr>"
    "Birthday_str True b' = strftime_dmY True \<lparr>year = 999, month = 1, day = 1\<rparr>" by blast
  moreover from this(2) have "b' = mk_Birthday \<lparr>year = 999, month = 1, day = 1\<rparr>"
    by (cases b') simp
  ultimately have two:
    "Birthday_init unicode_14_zeros (code_points ''01.01.0999'') =
       Inr (mk_Birthday \<lparr>year = 999, month = 1, day = 1\<rparr>)
     \<and> Birthday_str True (mk_Birthday \<lparr>year = 999, month = 1, day = 1\<rparr>) = ''01.01.0999''"
    unfolding r' by simp
  from one two r r' show ?thesis by blast
qed

text \<open>
  Claim C7 as stated fails where the platform does not pad: \<^verbatim>\<open>Birthday\<close> accepts
  \<^verbatim>\<open>"01.01.0999"\<close>, the date renders as \<^verbatim>\<open>"01.01.999"\<close>, and \<^verbatim>\<open>Birthday\<close> rejects that text.
\<close>

theorem Birthday_round_trip_unpadded_counterexample:
  "Birthday_init unicode_14_zeros (code_points ''01.01.0999'') =
     Inr (mk_Birthday \<lparr>year = 999, month = 1, day = 1\<rparr>)
   \<and> valid_date \<lparr>year = 999, month = 1, day = 1\<rparr>
   \<and> Birthday_str False (mk_Birthday \<lparr>year = 999, month = 1, day = 1\<rparr>) = ''01.01.999''
   \<and> Birthday_init unicode_14_zeros (code_points ''01.01.999'') =
     Inl (ValueError Invalid_date_format)"
  by (simp add: parse_eval render_eval Birthday_str_def valid_date_def)

section \<open>Properties of the upcoming birthdays\<close>

subsection \<open>Years and ordinals\<close>





subsection \<open>The loop and the specification's words\<close>














subsection \<open>The examples, evaluated\<close>

lemmas date_eval = toordinal_def ymd2ord_def days_before_year_def days_before_month_def
  DAYS_BEFORE_MONTH_def DAYS_IN_MONTH_def is_leap_def fromordinal_def ord2ymd_def
  DI400Y_def DI100Y_def DI4Y_def Let_def weekday_def date_add_days_def MAXORDINAL_def
  replace_year_def date_new_def MINYEAR_def MAXYEAR_def days_in_month_def date_less_def
  date_le_def

lemmas upcoming_eval = get_upcoming_birthdays_def upcoming_entry_def date_eval render_eval

lemma example_next_week:
  "date_add_days example_today 7 = Inr \<lparr>year = 2025, month = 3, day = 17\<rparr>"
  by (simp add: example_today_def date_eval)






subsection \<open>A birthday on 29 February\<close>

text \<open>
  Claim C1 does not hold of the code.  On 10 March 2025, a day of a year that is not a leap
  year, a book whose only record has the birthday \<^verbatim>\<open>29.02.2000\<close> makes
  \<^verbatim>\<open>get_upcoming_birthdays\<close> raise the \<^verbatim>\<open>ValueError\<close> of \<^verbatim>\<open>date.replace\<close> (day is out of range
  for month).
\<close>

theorem feb29_non_leap_year_raises:
  "days_in_month (year example_today) 2 = 28
   \<and> Birthday_init zeros (code_points ''29.02.2000'') =
        Inr (mk_Birthday \<lparr>year = 2000, month = 2, day = 29\<rparr>)
   \<and> birthday bob_feb29 = Some (mk_Birthday \<lparr>year = 2000, month = 2, day = 29\<rparr>)
   \<and> fst (get_upcoming_birthdays pad example_today [(''Bob'', bob_feb29)]) =
        Inl (ValueError Day_out_of_range)"
  by (simp add: example_today_def bob_feb29_def upcoming_eval parse_eval)

text \<open>The same happens for every book that holds such a record, on every such day.\<close>

lemma upcoming_loop_raises:
  "r \<in> set rs \<Longrightarrow> upcoming_entry pad today next_week r = Inl e \<Longrightarrow>
     \<exists>e'. upcoming_loop pad today next_week rs acc = Inl e'"
proof (induction rs arbitrary: acc)
  case Nil
  then show ?case by simp
next
  case (Cons a rs)
  show ?case
  proof (cases "upcoming_entry pad today next_week a")
    case (Inl e')
    then show ?thesis by simp
  next
    case (Inr x)
    with Cons.prems have "r \<in> set rs" by auto
    from Cons.IH[OF this Cons.prems(2)] Inr show ?thesis by (cases x) simp_all
  qed
qed

lemma feb29_entry_raises:
  assumes "birthday r = Some b" "month (Birthday_value b) = 2" "day (Birthday_value b) = 29"
    "\<not> is_leap (year today)"
  shows "\<exists>e. upcoming_entry pad today next_week r = Inl e"
proof -
  have "\<exists>e. replace_year (Birthday_value b) (year today) = Inl e"
    using assms(2-4)
    by (simp add: replace_year_def date_new_def days_in_month_def DAYS_IN_MONTH_def)
  with assms(1) show ?thesis by (auto simp: upcoming_entry_def)
qed

lemma feb29_always_raises:
  assumes "r \<in> set (map snd book)" "birthday r = Some b"
    "month (Birthday_value b) = 2" "day (Birthday_value b) = 29" "\<not> is_leap (year today)"
  shows "\<exists>e. fst (get_upcoming_birthdays pad today book) = Inl e"
proof (cases "date_add_days today 7")
  case (Inl e)
  then show ?thesis by (simp add: get_upcoming_birthdays_def)
next
  case (Inr nw)
  from feb29_entry_raises[OF assms(2-5)] obtain e where "upcoming_entry pad today nw r = Inl e"
    by blast
  from upcoming_loop_raises[OF assms(1) this] Inr show ?thesis
    by (simp add: get_upcoming_birthdays_def)
qed

subsection \<open>When the query returns\<close>








subsection \<open>Which records get an entry\<close>






subsection \<open>The congratulation dates\<close>




subsection \<open>The query leaves the book as it was\<close>

text \<open>
  Claim C10.  The book at the end of \<^verbatim>\<open>get_upcoming_birthdays\<close>, whether it returns or
  raises, is the book at its start: the same keys in the same order, each with the same
  record (name, phones, birthday).
\<close>

theorem get_upcoming_birthdays_pure:
  "snd (get_upcoming_birthdays pad today book) = book"
  by (simp add: get_upcoming_birthdays_def split: sum.splits)

end
